theory Spec2Isabelle
  imports Complex_Main
begin

section \<open>TodayRoute: the trip recording session of \<open>src/App.tsx\<close>\<close>

text \<open>
  The component \<open>App\<close> keeps its session in React state cells and refs and in two
  \<open>localStorage\<close> slots. The embedding threads one record \<open>AppState\<close> through every
  handler. JavaScript numbers that hold coordinates and metres are modelled by \<open>real\<close>,
  counters and epoch milliseconds by \<open>int\<close>. A \<open>Date\<close> and its ISO string are both the
  instant in epoch milliseconds. The modules \<open>./types\<close>, \<open>./utils/geo\<close>, \<open>./utils/canvas\<close>
  and \<open>./services/geminiService\<close> are imported by the file but are not part of it: their
  functions are parameters of the handlers that call them. The two \<open>localStorage\<close>
  slots hold the stored values themselves: \<open>JSON.parse\<close> of \<open>JSON.stringify\<close> gives
  the value back, and a stored string that does not parse is not modelled. Each handler
  runs to its end before the next event: what an \<open>await\<close> lets in between is not
  modelled.
\<close>

subsection \<open>Data\<close>

text \<open>\<open>GeoPoint\<close>: \<open>{ lat, lng, t, acc? }\<close>; \<open>t_ms\<close> is the field \<open>t\<close>.\<close>

record GeoPoint =
  lat :: real
  lng :: real
  t_ms :: int
  acc :: "real option"

text \<open>\<open>DraftTrip\<close>, the object written under \<open>DRAFT_KEY\<close>.\<close>

record DraftTrip =
  draft_startedAt :: int
  draft_startTime :: "string option"
  draft_isPrivate :: bool
  draft_elapsedSec :: int
  draft_distanceMeters :: real
  draft_points :: "GeoPoint list"

text \<open>The object held by the state cell \<open>finishScreen\<close>.\<close>

record FinishScreen =
  fs_show :: bool
  fs_startLabel :: string
  fs_endLabel :: string
  fs_points :: "GeoPoint list"
  fs_dist :: real
  fs_time :: int
  fs_start :: int
  fs_startTimeStr :: string
  fs_endTimeStr :: string

text \<open>\<open>Trip\<close>, as \<open>handleFinalSave\<close> builds it.\<close>

record Trip =
  trip_id :: string
  trip_name :: string
  trip_date :: int
  trip_startTime :: string
  trip_endTime :: string
  trip_isPrivate :: bool
  trip_distanceMeters :: real
  trip_durationSec :: int
  trip_points :: "GeoPoint list"
  trip_posterPngBase64 :: string
  trip_aiInsight :: "string option"
  trip_startLabel :: string
  trip_endLabel :: string

text \<open>The argument object of \<open>generatePosterPng\<close>.\<close>

record PosterArgs =
  pa_title :: string
  pa_dateLabel :: string
  pa_timeRange :: string
  pa_distanceMeters :: real
  pa_durationSec :: int
  pa_points :: "GeoPoint list"
  pa_startLabel :: string
  pa_endLabel :: string

text \<open>
  The values of the state cell \<open>gpsStatus\<close>: \<open>"Idle"\<close>, \<open>"Searching..."\<close>,
  \<open>"Weak GPS"\<close> and \<open>"Good GPS"\<close> (each followed by a pictograph in the source) and
  \<open>"GPS Error"\<close>.
\<close>

datatype GpsStatus = StatusIdle | StatusSearching | StatusWeakGPS | StatusGoodGPS | StatusGPSError

text \<open>What a JavaScript call can throw, or a promise reject with.\<close>

datatype exn = TypeError | Failure string

text \<open>
  The state cells (\<open>useState\<close>), the refs (\<open>useRef\<close>), the two \<open>localStorage\<close> slots,
  and two logs of what left the component: the \<open>alert\<close> messages shown and the
  coordinates sent to \<open>reverseGeocode\<close>. \<open>watchIdRef\<close> and \<open>timerRef\<close> are \<open>True\<close>
  while a handle is held.
\<close>

record AppState =
  trips :: "Trip list"
  isTracking :: bool
  isPrivate :: bool
  gpsStatus :: GpsStatus
  distanceMeters :: real
  elapsedSec :: int
  startedAt :: "int option"
  startTimeLabel :: string
  activeTrip :: "Trip option"
  isSaving :: bool
  hasDraft :: bool
  finishScreen :: "FinishScreen option"
  watchIdRef :: bool
  timerRef :: bool
  lastPointRef :: "GeoPoint option"
  pointsRef :: "GeoPoint list"
  storedTrips :: "Trip list option"
  storedDraft :: "DraftTrip option"
  alerts :: "string list"
  geocodeCalls :: "(real \<times> real) list"

subsection \<open>The sample filter: \<open>addPoint\<close>\<close>

text \<open>
  The guard \<open>p.acc && p.acc > 150\<close>: an absent accuracy and the number 0 are falsy.
\<close>

definition weakSignal :: "GeoPoint \<Rightarrow> bool" where
  "weakSignal p = (case acc p of None \<Rightarrow> False | Some a \<Rightarrow> a \<noteq> 0 \<and> 150 < a)"

definition addPoint :: "(GeoPoint \<Rightarrow> GeoPoint \<Rightarrow> real) \<Rightarrow> GeoPoint \<Rightarrow> AppState \<Rightarrow> AppState" where
  "addPoint haversineMeters p s =
     (if weakSignal p then s\<lparr>gpsStatus := StatusWeakGPS\<rparr>
      else
        let s1 = s\<lparr>gpsStatus := StatusGoodGPS\<rparr> in
        case lastPointRef s1 of
          None \<Rightarrow> s1\<lparr>lastPointRef := Some p, pointsRef := pointsRef s1 @ [p]\<rparr>
        | Some last_pt \<Rightarrow>
            let d = haversineMeters last_pt p in
            if d < 1 then s1
            else s1\<lparr>distanceMeters := distanceMeters s1 + d,
                    lastPointRef := Some p,
                    pointsRef := pointsRef s1 @ [p]\<rparr>)"

text \<open>The location watch calls \<open>addPoint\<close> once for every sample, in order of arrival.\<close>

fun feed :: "(GeoPoint \<Rightarrow> GeoPoint \<Rightarrow> real) \<Rightarrow> GeoPoint list \<Rightarrow> AppState \<Rightarrow> AppState" where
  "feed hav [] s = s"
| "feed hav (p # ps) s = feed hav ps (addPoint hav p s)"

text \<open>The states after each sample of a run, the starting state first.\<close>

fun trace :: "(GeoPoint \<Rightarrow> GeoPoint \<Rightarrow> real) \<Rightarrow> GeoPoint list \<Rightarrow> AppState \<Rightarrow> AppState list" where
  "trace hav [] s = [s]"
| "trace hav (p # ps) s = s # trace hav ps (addPoint hav p s)"

text \<open>The length of a path: the sum of the distances between consecutive points.\<close>

fun pathLength :: "(GeoPoint \<Rightarrow> GeoPoint \<Rightarrow> real) \<Rightarrow> GeoPoint list \<Rightarrow> real" where
  "pathLength hav [] = 0"
| "pathLength hav [a] = 0"
| "pathLength hav (a # b # rest) = hav a b + pathLength hav (b # rest)"

text \<open>\<open>xs[xs.length - 1] || null\<close>.\<close>

definition lastOrNull :: "'a list \<Rightarrow> 'a option" where
  "lastOrNull xs = (if xs = [] then None else Some (last xs))"

subsection \<open>Starting, resuming and the draft snapshot\<close>

text \<open>
  \<open>startTracking(resumingDraft?)\<close>. \<open>geolocation\<close> says whether \<open>navigator.geolocation\<close>
  exists, \<open>formatTimeShort\<close> is the locale's clock format and \<open>now\<close> is \<open>new Date()\<close>.
  \<open>a || b\<close> on a string takes \<open>b\<close> when \<open>a\<close> is absent or empty.
\<close>

definition startTracking ::
  "bool \<Rightarrow> (int \<Rightarrow> string) \<Rightarrow> int \<Rightarrow> DraftTrip option \<Rightarrow> AppState \<Rightarrow> AppState" where
  "startTracking geolocation formatTimeShort now resumingDraft s =
     (if \<not> geolocation then s\<lparr>alerts := alerts s @ [''GPS not supported.'']\<rparr>
      else
        let s1 =
          (case resumingDraft of
             Some d \<Rightarrow>
               s\<lparr>pointsRef := draft_points d,
                 lastPointRef := lastOrNull (draft_points d),
                 distanceMeters := draft_distanceMeters d,
                 elapsedSec := draft_elapsedSec d,
                 startedAt := Some (draft_startedAt d),
                 startTimeLabel :=
                   (case draft_startTime d of
                      None \<Rightarrow> formatTimeShort (draft_startedAt d)
                    | Some l \<Rightarrow> if l = [] then formatTimeShort (draft_startedAt d) else l),
                 isPrivate := draft_isPrivate d\<rparr>
           | None \<Rightarrow>
               s\<lparr>pointsRef := [],
                 lastPointRef := None,
                 distanceMeters := 0,
                 elapsedSec := 0,
                 startedAt := Some now,
                 startTimeLabel := formatTimeShort now\<rparr>)
        in s1\<lparr>isTracking := True, gpsStatus := StatusSearching,
               timerRef := True, watchIdRef := True\<rparr>)"

text \<open>The body of the 10-second interval of the draft effect, which exists while tracking.\<close>

definition snapshotDraft :: "int \<Rightarrow> AppState \<Rightarrow> AppState" where
  "snapshotDraft now s =
     (if \<not> isTracking s then s
      else s\<lparr>storedDraft := Some
             \<lparr>draft_startedAt = (case startedAt s of Some d \<Rightarrow> d | None \<Rightarrow> now),
              draft_startTime = Some (startTimeLabel s),
              draft_isPrivate = isPrivate s,
              draft_elapsedSec = elapsedSec s,
              draft_distanceMeters = distanceMeters s,
              draft_points = pointsRef s\<rparr>\<rparr>)"

text \<open>\<open>handleResume\<close>: a stored draft is always a well-formed \<open>DraftTrip\<close> here.\<close>

definition handleResume :: "bool \<Rightarrow> (int \<Rightarrow> string) \<Rightarrow> int \<Rightarrow> AppState \<Rightarrow> AppState" where
  "handleResume geolocation formatTimeShort now s =
     (case storedDraft s of
        None \<Rightarrow> s\<lparr>hasDraft := False\<rparr>
      | Some draft \<Rightarrow>
          startTracking geolocation formatTimeShort now (Some draft) (s\<lparr>hasDraft := False\<rparr>))"

subsection \<open>Finishing\<close>

definition stopTracking :: "AppState \<Rightarrow> AppState" where
  "stopTracking s =
     s\<lparr>watchIdRef := False, timerRef := False, storedDraft := None,
       isTracking := False, gpsStatus := StatusIdle\<rparr>"

text \<open>\<open>a || "Start"\<close> on the string a geocoding lookup returned.\<close>

definition orElse :: "string \<Rightarrow> string \<Rightarrow> string" where
  "orElse a b = (if a = [] then b else a)"

text \<open>
  \<open>handleFinish\<close>. \<open>confirmed\<close> is the user's answer to the \<open>confirm\<close> dialog, asked
  only with fewer than two points. The result holds what the promise rejected with, if
  it did, and the state the handler left. \<open>snapPoints[0].lat\<close> on an empty copy reads a
  field of \<open>undefined\<close>: a \<open>TypeError\<close>, thrown before any lookup is sent and before
  \<open>setIsSaving(false)\<close>.
\<close>

definition handleFinish ::
  "(real \<Rightarrow> real \<Rightarrow> string) \<Rightarrow> (int \<Rightarrow> string) \<Rightarrow> bool \<Rightarrow> int \<Rightarrow> AppState
     \<Rightarrow> exn option \<times> AppState" where
  "handleFinish reverseGeocode formatTimeShort confirmed now s =
     (if length (pointsRef s) < 2 \<and> \<not> confirmed then (None, s)
      else
        let snapPoints = pointsRef s;
            snapDist = distanceMeters s;
            snapTime = elapsedSec s;
            snapStart = (case startedAt s of Some d \<Rightarrow> d | None \<Rightarrow> now);
            snapEndTime = now;
            s1 = stopTracking (s\<lparr>isSaving := True\<rparr>);
            show_screen = (\<lambda>startLoc endLoc st.
              st\<lparr>isSaving := False,
                 finishScreen := Some
                   \<lparr>fs_show = True, fs_startLabel = startLoc, fs_endLabel = endLoc,
                    fs_points = snapPoints, fs_dist = snapDist, fs_time = snapTime,
                    fs_start = snapStart, fs_startTimeStr = startTimeLabel s,
                    fs_endTimeStr = formatTimeShort snapEndTime\<rparr>\<rparr>)
        in
          if \<not> isPrivate s then
            (case snapPoints of
               [] \<Rightarrow> (Some TypeError, s1)
             | first_pt # _ \<Rightarrow>
                 let last_pt = last snapPoints;
                     sRes = reverseGeocode (lat first_pt) (lng first_pt);
                     eRes = reverseGeocode (lat last_pt) (lng last_pt);
                     s2 = s1\<lparr>geocodeCalls := geocodeCalls s1 @
                            [(lat first_pt, lng first_pt), (lat last_pt, lng last_pt)]\<rparr>
                 in (None, show_screen (orElse sRes ''Start'') (orElse eRes ''End'') s2))
          else (None, show_screen ''Start'' ''End'' s1))"

subsection \<open>Committing: \<open>handleFinalSave\<close> and the archive\<close>

text \<open>\<open>saveTrips\<close>: \<open>localStorage.setItem(TRIPS_KEY, JSON.stringify(trips.slice(0, 50)))\<close>.\<close>

definition saveTrips :: "Trip list \<Rightarrow> AppState \<Rightarrow> AppState" where
  "saveTrips ts s = s\<lparr>storedTrips := Some (take 50 ts)\<rparr>"

text \<open>
  \<open>setTrips(f)\<close> together with the effect \<open>useEffect(() => saveTrips(trips), [trips])\<close>,
  which runs after a render in which \<open>trips\<close> has changed.
\<close>

definition setTrips :: "(Trip list \<Rightarrow> Trip list) \<Rightarrow> AppState \<Rightarrow> AppState" where
  "setTrips f s = saveTrips (f (trips s)) (s\<lparr>trips := f (trips s)\<rparr>)"

text \<open>The en dash of the time range, in UTF-8.\<close>

definition enDash :: string where
  "enDash = [CHR 0xE2, CHR 0x80, CHR 0x93]"

definition posterArgs :: "(int \<Rightarrow> string) \<Rightarrow> FinishScreen \<Rightarrow> PosterArgs" where
  "posterArgs formatDate fs =
     \<lparr>pa_title = ''ACTIVITY'',
      pa_dateLabel = formatDate (fs_start fs),
      pa_timeRange = fs_startTimeStr fs @ '' '' @ enDash @ '' '' @ fs_endTimeStr fs,
      pa_distanceMeters = fs_dist fs,
      pa_durationSec = fs_time fs,
      pa_points = fs_points fs,
      pa_startLabel = fs_startLabel fs,
      pa_endLabel = fs_endLabel fs\<rparr>"

definition newTrip :: "string \<Rightarrow> bool \<Rightarrow> FinishScreen \<Rightarrow> string \<Rightarrow> string option \<Rightarrow> Trip" where
  "newTrip uid private fs poster insight =
     \<lparr>trip_id = uid,
      trip_name = ''ACTIVITY'',
      trip_date = fs_start fs,
      trip_startTime = fs_startTimeStr fs,
      trip_endTime = fs_endTimeStr fs,
      trip_isPrivate = private,
      trip_distanceMeters = fs_dist fs,
      trip_durationSec = fs_time fs,
      trip_points = fs_points fs,
      trip_posterPngBase64 = poster,
      trip_aiInsight = insight,
      trip_startLabel = fs_startLabel fs,
      trip_endLabel = fs_endLabel fs\<rparr>"

text \<open>The message of the \<open>catch\<close> block of \<open>handleFinalSave\<close>.\<close>

definition failureAlert :: string where
  "failureAlert = ''Poster failed to generate, but trip is saved.''"

text \<open>
  \<open>handleFinalSave\<close>. \<open>generateTripInsight\<close> and \<open>generatePosterPng\<close> return \<open>Inl\<close>
  when the promise rejects or the call throws; \<open>uid\<close> is the identifier \<open>uid()\<close>
  draws. The \<open>try\<close> block holds both calls and the three state updates, the \<open>catch\<close>
  block the alert, the \<open>finally\<close> block \<open>setIsSaving(false)\<close>.
\<close>

definition handleFinalSave ::
  "(real \<Rightarrow> int \<Rightarrow> string \<Rightarrow> exn + string option) \<Rightarrow> (PosterArgs \<Rightarrow> exn + string)
     \<Rightarrow> (int \<Rightarrow> string) \<Rightarrow> string \<Rightarrow> AppState \<Rightarrow> AppState" where
  "handleFinalSave generateTripInsight generatePosterPng formatDate uid s =
     (case finishScreen s of
        None \<Rightarrow> s
      | Some fs \<Rightarrow>
          let s1 = s\<lparr>isSaving := True\<rparr>;
              caught = (\<lambda>st. st\<lparr>alerts := alerts st @ [failureAlert], isSaving := False\<rparr>)
          in
            case generateTripInsight (fs_dist fs) (fs_time fs) ''ACTIVITY'' of
              Inl e \<Rightarrow> caught s1
            | Inr insight \<Rightarrow>
                (case generatePosterPng (posterArgs formatDate fs) of
                   Inl e \<Rightarrow> caught s1
                 | Inr poster \<Rightarrow>
                     let t = newTrip uid (isPrivate s) fs poster insight;
                         s2 = setTrips (\<lambda>prev. t # prev) s1
                     in s2\<lparr>activeTrip := Some t, finishScreen := None, isSaving := False\<rparr>))"

text \<open>A run of successful commits: each prepends its trip and the effect persists.\<close>

fun archiveAll :: "Trip list \<Rightarrow> AppState \<Rightarrow> AppState" where
  "archiveAll [] s = s"
| "archiveAll (t # ts) s = archiveAll ts (setTrips (\<lambda>prev. t # prev) s)"



subsection \<open>The sample filter as the specification words it\<close>

text \<open>
  The contract of the sample filter: a candidate whose accuracy is present and above
  150 m is rejected; otherwise, with a previous accepted point less than 1 m away it is
  rejected as noise; otherwise it is accepted and becomes the previous accepted point.
  \<open>spec_accepted hav prev cs\<close> lists the accepted candidates of \<open>cs\<close>.
\<close>

definition spec_weak :: "GeoPoint \<Rightarrow> bool" where
  "spec_weak c = (case acc c of None \<Rightarrow> False | Some a \<Rightarrow> 150 < a)"

fun spec_accepted :: "(GeoPoint \<Rightarrow> GeoPoint \<Rightarrow> real) \<Rightarrow> GeoPoint option \<Rightarrow> GeoPoint list \<Rightarrow> GeoPoint list" where
  "spec_accepted hav prev [] = []"
| "spec_accepted hav prev (c # cs) =
     (if spec_weak c then spec_accepted hav prev cs
      else case prev of
             None \<Rightarrow> c # spec_accepted hav (Some c) cs
           | Some q \<Rightarrow> if hav q c < 1 then spec_accepted hav prev cs
                       else c # spec_accepted hav (Some c) cs)"

text \<open>The anchor is the last stored point, or absent when none is stored.\<close>

definition anchored :: "AppState \<Rightarrow> bool" where
  "anchored s = (lastPointRef s = lastOrNull (pointsRef s))"

subsection \<open>Example data\<close>

text \<open>
  A distance for the examples, in the place of \<open>haversineMeters\<close>: 111 km for each
  degree, along the axes.
\<close>

definition gridMeters :: "GeoPoint \<Rightarrow> GeoPoint \<Rightarrow> real" where
  "gridMeters a b = 111000 * (\<bar>lat a - lat b\<bar> + \<bar>lng a - lng b\<bar>)"

text \<open>
  The samples of the scenario of the specification: A, B 11.1 m east of A, C with an
  accuracy of 200 m, D; and a sample 11 cm from B.
\<close>

definition sampleA :: GeoPoint where
  "sampleA = \<lparr>lat = 0, lng = 0, t_ms = 0, acc = None\<rparr>"

definition sampleB :: GeoPoint where
  "sampleB = \<lparr>lat = 0, lng = 1 / 10000, t_ms = 5000, acc = Some 10\<rparr>"

definition sampleC :: GeoPoint where
  "sampleC = \<lparr>lat = 0, lng = 2 / 10000, t_ms = 10000, acc = Some 200\<rparr>"

definition sampleD :: GeoPoint where
  "sampleD = \<lparr>lat = 0, lng = 3 / 10000, t_ms = 15000, acc = Some 10\<rparr>"

definition sampleJitter :: GeoPoint where
  "sampleJitter = \<lparr>lat = 0, lng = 1 / 10000 + 1 / 1000000, t_ms = 7000, acc = Some 5\<rparr>"

text \<open>The state of a newly mounted component with nothing stored.\<close>

definition mounted :: AppState where
  "mounted =
     \<lparr>trips = [], isTracking = False, isPrivate = False, gpsStatus = StatusIdle,
      distanceMeters = 0, elapsedSec = 0, startedAt = None, startTimeLabel = [],
      activeTrip = None, isSaving = False, hasDraft = False, finishScreen = None,
      watchIdRef = False, timerRef = False, lastPointRef = None, pointsRef = [],
      storedTrips = Some [], storedDraft = None, alerts = [], geocodeCalls = []\<rparr>"

definition clock :: "int \<Rightarrow> string" where
  "clock ms = ''9:00 AM''"

text \<open>A session that has accepted A and B.\<close>

definition walking :: AppState where
  "walking = feed gridMeters [sampleA, sampleB] (startTracking True clock 0 None mounted)"

subsection \<open>Example collaborators and states\<close>

text \<open>
  Collaborators for the examples: geocoders that find a place or nothing, an insight
  generator that rejects and one that returns no text, a poster renderer that throws and
  one that renders.
\<close>

definition namedGeocoder :: "real \<Rightarrow> real \<Rightarrow> string" where
  "namedGeocoder la lo = ''Main St, Springfield''"

definition silentGeocoder :: "real \<Rightarrow> real \<Rightarrow> string" where
  "silentGeocoder la lo = []"

definition failingInsight :: "real \<Rightarrow> int \<Rightarrow> string \<Rightarrow> exn + string option" where
  "failingInsight d t title = Inl (Failure ''insight unavailable'')"

definition absentInsight :: "real \<Rightarrow> int \<Rightarrow> string \<Rightarrow> exn + string option" where
  "absentInsight d t title = Inr None"

definition failingPoster :: "PosterArgs \<Rightarrow> exn + string" where
  "failingPoster args = Inl (Failure ''canvas unavailable'')"

definition plainPoster :: "PosterArgs \<Rightarrow> exn + string" where
  "plainPoster args = Inr ''data:image/png;base64,AAAA''"

definition longDate :: "int \<Rightarrow> string" where
  "longDate ms = ''January 01, 1970''"

text \<open>The review form of the session \<open>walking\<close>, finished as a public session.\<close>

definition walkSummary :: FinishScreen where
  "walkSummary =
     \<lparr>fs_show = True, fs_startLabel = ''Main St, Springfield'',
      fs_endLabel = ''Main St, Springfield'', fs_points = [sampleA, sampleB],
      fs_dist = 111 / 10, fs_time = 0, fs_start = 0,
      fs_startTimeStr = ''9:00 AM'', fs_endTimeStr = ''9:00 AM''\<rparr>"

definition reviewing :: AppState where
  "reviewing = snd (handleFinish namedGeocoder clock True 900000 walking)"

text \<open>A trip of an earlier session, and a reviewing state whose archive holds 50 trips.\<close>

definition oldTrip :: Trip where
  "oldTrip = newTrip ''TR-0'' False walkSummary ''data:image/png;base64,AAAA'' None"

definition fullArchive :: AppState where
  "fullArchive = reviewing\<lparr>trips := replicate 50 oldTrip,
                            storedTrips := Some (replicate 50 oldTrip)\<rparr>"

subsection \<open>What a draft captures\<close>

text \<open>
  The session as a draft captures it: the stored points, the anchor, distance, elapsed
  seconds, start instant, start label and privacy flag.
\<close>

definition session ::
  "AppState \<Rightarrow> GeoPoint list \<times> GeoPoint option \<times> real \<times> int \<times> int option \<times> string \<times> bool" where
  "session s =
     (pointsRef s, lastPointRef s, distanceMeters s, elapsedSec s, startedAt s,
      startTimeLabel s, isPrivate s)"

text \<open>
  What every tracking session satisfies: it is tracking, the anchor is the last stored
  point, the start instant is set, and the start label is not empty or is the clock
  format of the start instant.
\<close>

definition liveSession :: "(int \<Rightarrow> string) \<Rightarrow> AppState \<Rightarrow> bool" where
  "liveSession formatTimeShort s =
     (isTracking s \<and> anchored s \<and>
      (case startedAt s of
         None \<Rightarrow> False
       | Some d \<Rightarrow> startTimeLabel s \<noteq> [] \<or> startTimeLabel s = formatTimeShort d))"

text \<open>The path that distance is measured along after a resume starts at the anchor.\<close>

definition anchorPath :: "GeoPoint option \<Rightarrow> GeoPoint list" where
  "anchorPath a = (case a of None \<Rightarrow> [] | Some p \<Rightarrow> [p])"

subsection \<open>Example sessions\<close>

text \<open>A fresh process that finds the draft of \<open>walking\<close>, written 5 seconds in.\<close>

definition relaunched :: AppState where
  "relaunched = mounted\<lparr>hasDraft := True, storedDraft := storedDraft (snapshotDraft 5000 walking)\<rparr>"

text \<open>The draft of \<open>walking\<close>.\<close>

definition walkDraft :: DraftTrip where
  "walkDraft =
     \<lparr>draft_startedAt = 0, draft_startTime = Some ''9:00 AM'', draft_isPrivate = False,
      draft_elapsedSec = 0, draft_distanceMeters = 111 / 10,
      draft_points = [sampleA, sampleB]\<rparr>"

text \<open>The session \<open>walking\<close> recorded as private, and a session with no point yet.\<close>

definition privateWalk :: AppState where
  "privateWalk = walking\<lparr>isPrivate := True\<rparr>"

definition standing :: AppState where
  "standing = startTracking True clock 0 None mounted"

section \<open>The sample filter\<close>

lemma weakSignal_iff: "weakSignal p = spec_weak p"
  by (auto simp: weakSignal_def spec_weak_def split: option.splits)

lemma addPoint_weak: "weakSignal p \<Longrightarrow> addPoint hav p s = s\<lparr>gpsStatus := StatusWeakGPS\<rparr>"
  by (simp add: addPoint_def)

lemma addPoint_first:
  "\<not> weakSignal p \<Longrightarrow> lastPointRef s = None \<Longrightarrow>
   addPoint hav p s = s\<lparr>gpsStatus := StatusGoodGPS, lastPointRef := Some p, pointsRef := pointsRef s @ [p]\<rparr>"
  by (simp add: addPoint_def)

lemma addPoint_noise:
  "\<not> weakSignal p \<Longrightarrow> lastPointRef s = Some l \<Longrightarrow> hav l p < 1 \<Longrightarrow>
   addPoint hav p s = s\<lparr>gpsStatus := StatusGoodGPS\<rparr>"
  by (simp add: addPoint_def)

lemma addPoint_moved:
  "\<not> weakSignal p \<Longrightarrow> lastPointRef s = Some l \<Longrightarrow> \<not> hav l p < 1 \<Longrightarrow>
   addPoint hav p s = s\<lparr>gpsStatus := StatusGoodGPS, distanceMeters := distanceMeters s + hav l p,
       lastPointRef := Some p, pointsRef := pointsRef s @ [p]\<rparr>"
  by (simp add: addPoint_def Let_def)

lemma addPoint_cases:
  obtains (weak) "weakSignal p" "addPoint hav p s = s\<lparr>gpsStatus := StatusWeakGPS\<rparr>"
  | (first) "\<not> weakSignal p" "lastPointRef s = None"
      "addPoint hav p s = s\<lparr>gpsStatus := StatusGoodGPS, lastPointRef := Some p, pointsRef := pointsRef s @ [p]\<rparr>"
  | (noise) l where "\<not> weakSignal p" "lastPointRef s = Some l" "hav l p < 1"
      "addPoint hav p s = s\<lparr>gpsStatus := StatusGoodGPS\<rparr>"
  | (moved) l where "\<not> weakSignal p" "lastPointRef s = Some l" "1 \<le> hav l p"
      "addPoint hav p s = s\<lparr>gpsStatus := StatusGoodGPS, distanceMeters := distanceMeters s + hav l p,
       lastPointRef := Some p, pointsRef := pointsRef s @ [p]\<rparr>"
proof (cases "weakSignal p")
  case True
  then show ?thesis using weak addPoint_weak by blast
next
  case nw: False
  show ?thesis
  proof (cases "lastPointRef s")
    case None
    then show ?thesis using nw first addPoint_first by blast
  next
    case (Some l)
    show ?thesis
    proof (cases "hav l p < 1")
      case True
      then show ?thesis using nw Some noise addPoint_noise by blast
    next
      case False
      then have "1 \<le> hav l p" by simp
      then show ?thesis using nw Some False moved addPoint_moved by blast
    qed
  qed
qed

lemma addPoint_distance_mono: "distanceMeters s \<le> distanceMeters (addPoint hav p s)"
  by (cases p s rule: addPoint_cases[where hav = hav]) simp_all

lemma trace_lower_bound:
  "x \<in> set (trace hav ps s) \<Longrightarrow> distanceMeters s \<le> distanceMeters x"
proof (induction ps arbitrary: s)
  case Nil
  then show ?case by simp
next
  case (Cons p ps)
  from Cons.prems have "x = s \<or> x \<in> set (trace hav ps (addPoint hav p s))" by simp
  then show ?case
  proof
    assume "x = s" then show ?thesis by simp
  next
    assume "x \<in> set (trace hav ps (addPoint hav p s))"
    then have "distanceMeters (addPoint hav p s) \<le> distanceMeters x" by (rule Cons.IH)
    with addPoint_distance_mono[of s hav p] show ?thesis by linarith
  qed
qed

lemma trace_sorted: "sorted (map distanceMeters (trace hav ps s))"
proof (induction ps arbitrary: s)
  case Nil
  show ?case by simp
next
  case (Cons p ps)
  have "\<forall>x \<in> set (trace hav ps (addPoint hav p s)). distanceMeters s \<le> distanceMeters x"
    using trace_lower_bound[of _ hav ps "addPoint hav p s"] addPoint_distance_mono[of s hav p]
    by fastforce
  with Cons.IH[of "addPoint hav p s"] show ?case by simp
qed

lemma trace_nonempty: "trace hav ps s \<noteq> []"
  by (cases ps) simp_all

lemma trace_last: "last (trace hav ps s) = feed hav ps s"
  by (induction ps arbitrary: s) (simp_all add: trace_nonempty)

lemma pathLength_snoc:
  "xs \<noteq> [] \<Longrightarrow> pathLength hav (xs @ [p]) = pathLength hav xs + hav (last xs) p"
  by (induction hav xs rule: pathLength.induct) simp_all

lemma addPoint_anchored: "anchored s \<Longrightarrow> anchored (addPoint hav p s)"
  by (cases p s rule: addPoint_cases[where hav = hav]) (simp_all add: anchored_def lastOrNull_def)

lemma addPoint_excess:
  assumes "anchored s"
  shows "distanceMeters (addPoint hav p s) - pathLength hav (pointsRef (addPoint hav p s))
       = distanceMeters s - pathLength hav (pointsRef s)"
proof (cases p s rule: addPoint_cases[where hav = hav])
  case weak
  then show ?thesis by simp
next
  case first
  with assms have "pointsRef s = []" by (simp add: anchored_def lastOrNull_def split: if_splits)
  with first show ?thesis by simp
next
  case (noise l)
  then show ?thesis by simp
next
  case (moved l)
  with assms have ne: "pointsRef s \<noteq> []" and l: "last (pointsRef s) = l"
    by (auto simp: anchored_def lastOrNull_def split: if_splits)
  from moved ne l show ?thesis by (simp add: pathLength_snoc)
qed

lemma feed_anchored: "anchored s \<Longrightarrow> anchored (feed hav ps s)"
  by (induction ps arbitrary: s) (simp_all add: addPoint_anchored)

lemma feed_excess:
  "anchored s \<Longrightarrow>
   distanceMeters (feed hav ps s) - pathLength hav (pointsRef (feed hav ps s))
     = distanceMeters s - pathLength hav (pointsRef s)"
proof (induction ps arbitrary: s)
  case Nil
  show ?case by simp
next
  case (Cons p ps)
  from Cons.prems have "anchored (addPoint hav p s)" by (rule addPoint_anchored)
  from Cons.IH[OF this] addPoint_excess[OF Cons.prems, of hav p] show ?case by simp
qed

lemma addPoint_points:
  "pointsRef (addPoint hav p s) = pointsRef s @ spec_accepted hav (lastPointRef s) [p]
   \<and> lastPointRef (addPoint hav p s) = (case spec_accepted hav (lastPointRef s) [p] of [] \<Rightarrow> lastPointRef s | _ \<Rightarrow> Some p)"
  by (cases p s rule: addPoint_cases[where hav = hav]) (simp_all add: weakSignal_iff)

lemma feed_points:
  "pointsRef (feed hav ps s) = pointsRef s @ spec_accepted hav (lastPointRef s) ps"
proof (induction ps arbitrary: s)
  case Nil
  show ?case by simp
next
  case (Cons p ps)
  show ?case
    by (cases p s rule: addPoint_cases[where hav = hav]) (simp_all add: Cons.IH weakSignal_iff)
qed

lemma startTracking_fresh:
  "anchored (startTracking True fmt now None s0)"
  "distanceMeters (startTracking True fmt now None s0) = 0"
  "pointsRef (startTracking True fmt now None s0) = []"
  "lastPointRef (startTracking True fmt now None s0) = None"
  by (simp_all add: startTracking_def anchored_def lastOrNull_def)

text \<open>
  C1. Feed any sequence of samples to the filter, from any state: the distance read after
  each sample never decreases, and the last state of the run is the state after the
  whole sequence. In a session started afresh, the stored points are exactly the accepted
  samples, and the distance is the sum of the distances between consecutive accepted
  points: a rejected sample adds nothing and the first accepted point adds no distance.
\<close>

theorem distance_monotone_and_path_sum:
  "sorted (map distanceMeters (trace hav ps s))
   \<and> last (trace hav ps s) = feed hav ps s
   \<and> pointsRef (feed hav ps (startTracking True fmt now None s0)) = spec_accepted hav None ps
   \<and> distanceMeters (feed hav ps (startTracking True fmt now None s0))
       = pathLength hav (spec_accepted hav None ps)"
proof -
  let ?s = "startTracking True fmt now None s0"
  have pts: "pointsRef (feed hav ps ?s) = spec_accepted hav None ps"
    using feed_points[of hav ps ?s] by (simp add: startTracking_fresh)
  have "distanceMeters (feed hav ps ?s) - pathLength hav (pointsRef (feed hav ps ?s)) = 0"
    using feed_excess[OF startTracking_fresh(1), of hav ps fmt now s0] by (simp add: startTracking_fresh)
  with pts show ?thesis by (simp add: trace_sorted trace_last)
qed

lemmas sample_defs = sampleA_def sampleB_def sampleC_def sampleD_def sampleJitter_def

lemma walking_eq:
  "walking = mounted\<lparr>isTracking := True, gpsStatus := StatusGoodGPS, timerRef := True, watchIdRef := True,
      startedAt := Some 0, startTimeLabel := ''9:00 AM'',
      distanceMeters := 111 / 10, lastPointRef := Some sampleB, pointsRef := [sampleA, sampleB]\<rparr>"
  by (simp add: walking_def startTracking_def addPoint_def weakSignal_def gridMeters_def
      sample_defs mounted_def clock_def Let_def)

text \<open>
  The scenario of the specification: of the samples A, B, C, D the filter stores A, B
  and D, and the distance is that of A to B plus that of B to D.
\<close>

lemma scenario_weak_sample_skipped:
  "pointsRef (feed gridMeters [sampleA, sampleB, sampleC, sampleD]
                (startTracking True clock 0 None mounted)) = [sampleA, sampleB, sampleD]
   \<and> distanceMeters (feed gridMeters [sampleA, sampleB, sampleC, sampleD]
                (startTracking True clock 0 None mounted)) = 111 / 10 + 222 / 10"
  by (simp add: startTracking_def addPoint_def weakSignal_def gridMeters_def
      sample_defs mounted_def Let_def)

text \<open>
  C2. A sample whose accuracy is present and above 150 m changes nothing but the status,
  which becomes the weak-signal one: the distance, the stored points and the anchor stay
  as they were, wherever the sample lies. A sample with no accuracy passes the accuracy
  check: the status becomes the good-signal one, and the sample is stored when it is the
  first one or lies at least 1 m from the anchor.
\<close>

theorem weak_sample_is_ignored:
  "(acc p = Some a \<longrightarrow> 150 < a \<longrightarrow> addPoint hav p s = s\<lparr>gpsStatus := StatusWeakGPS\<rparr>)
   \<and> (acc p = None \<longrightarrow>
        gpsStatus (addPoint hav p s) = StatusGoodGPS
        \<and> (case lastPointRef s of
             None \<Rightarrow> pointsRef (addPoint hav p s) = pointsRef s @ [p]
           | Some l \<Rightarrow> 1 \<le> hav l p \<longrightarrow> pointsRef (addPoint hav p s) = pointsRef s @ [p]))"
  by (auto simp: addPoint_def weakSignal_def Let_def split: option.splits)

theorem weak_sample_is_ignored_witness:
  "acc sampleC = Some 200 \<and> (150::real) < 200
   \<and> addPoint gridMeters sampleC walking = walking\<lparr>gpsStatus := StatusWeakGPS\<rparr>
   \<and> distanceMeters (addPoint gridMeters sampleC walking) = 111 / 10
   \<and> pointsRef (addPoint gridMeters sampleC walking) = [sampleA, sampleB]
   \<and> lastPointRef (addPoint gridMeters sampleC walking) = Some sampleB
   \<and> acc sampleA = None
   \<and> gpsStatus (addPoint gridMeters sampleA mounted) = StatusGoodGPS
   \<and> pointsRef (addPoint gridMeters sampleA mounted) = [sampleA]"
proof -
  have a: "acc sampleC = Some 200" and b: "acc sampleA = None" by (simp_all add: sample_defs)
  have m: "lastPointRef mounted = None" "pointsRef mounted = []" by (simp_all add: mounted_def)
  from weak_sample_is_ignored[of sampleC 200 gridMeters walking] a
  have 1: "addPoint gridMeters sampleC walking = walking\<lparr>gpsStatus := StatusWeakGPS\<rparr>" by simp
  from weak_sample_is_ignored[of sampleA 0 gridMeters mounted] b m
  have 2: "gpsStatus (addPoint gridMeters sampleA mounted) = StatusGoodGPS"
    "pointsRef (addPoint gridMeters sampleA mounted) = [sampleA]" by simp_all
  show ?thesis using a b 2 by (simp add: 1) (simp add: walking_eq)
qed

text \<open>
  C3. With an anchor present, a sample that passes the accuracy check (accuracy absent,
  or at most 150 m, however small) and lies less than 1 m from the anchor changes nothing
  but the status, which becomes the good-signal one.
\<close>

theorem jitter_sample_is_ignored:
  assumes "lastPointRef s = Some l"
    and "case acc p of None \<Rightarrow> True | Some a \<Rightarrow> a \<le> 150"
    and "hav l p < 1"
  shows "addPoint hav p s = s\<lparr>gpsStatus := StatusGoodGPS\<rparr>"
  using assms by (auto simp: addPoint_def weakSignal_def Let_def split: option.splits)

theorem jitter_sample_is_ignored_witness:
  "lastPointRef walking = Some sampleB
   \<and> acc sampleJitter = Some 5
   \<and> gridMeters sampleB sampleJitter < 1
   \<and> addPoint gridMeters sampleJitter walking = walking\<lparr>gpsStatus := StatusGoodGPS\<rparr>
   \<and> distanceMeters (addPoint gridMeters sampleJitter walking) = distanceMeters walking
   \<and> pointsRef (addPoint gridMeters sampleJitter walking) = [sampleA, sampleB]
   \<and> lastPointRef (addPoint gridMeters sampleJitter walking) = Some sampleB"
proof -
  have l: "lastPointRef walking = Some sampleB" by (simp add: walking_eq)
  have a: "acc sampleJitter = Some 5" by (simp add: sample_defs)
  have d: "gridMeters sampleB sampleJitter < 1" by (simp add: gridMeters_def sample_defs)
  have "addPoint gridMeters sampleJitter walking = walking\<lparr>gpsStatus := StatusGoodGPS\<rparr>"
    using jitter_sample_is_ignored[of walking sampleB sampleJitter gridMeters] l a d by simp
  then show ?thesis using l a d by (simp) (simp add: walking_eq)
qed

section \<open>Committing a reviewed session\<close>

lemma reviewing_eq:
  "reviewing = mounted\<lparr>startedAt := Some 0, startTimeLabel := ''9:00 AM'',
      distanceMeters := 111 / 10, lastPointRef := Some sampleB, pointsRef := [sampleA, sampleB],
      geocodeCalls := [(0, 0), (0, 1 / 10000)],
      finishScreen := Some walkSummary\<rparr>"
  by (simp add: reviewing_def handleFinish_def walking_eq stopTracking_def mounted_def Let_def
      orElse_def namedGeocoder_def clock_def walkSummary_def sample_defs)

lemma handleFinalSave_not_reviewing:
  "finishScreen s = None \<Longrightarrow> handleFinalSave gen ren fmtDate uid s = s"
  by (simp add: handleFinalSave_def)

lemma handleFinalSave_insight_fails:
  assumes "finishScreen s = Some fs" and "gen (fs_dist fs) (fs_time fs) ''ACTIVITY'' = Inl e"
  shows "handleFinalSave gen ren fmtDate uid s
           = s\<lparr>alerts := alerts s @ [failureAlert], isSaving := False\<rparr>"
  using assms by (simp add: handleFinalSave_def failureAlert_def)

lemma handleFinalSave_poster_fails:
  assumes "finishScreen s = Some fs" and "ren (posterArgs fmtDate fs) = Inl e"
  shows "handleFinalSave gen ren fmtDate uid s
           = s\<lparr>alerts := alerts s @ [failureAlert], isSaving := False\<rparr>"
  using assms by (simp add: handleFinalSave_def failureAlert_def Let_def split: sum.splits)

lemma handleFinalSave_succeeds:
  assumes "finishScreen s = Some fs"
    and "gen (fs_dist fs) (fs_time fs) ''ACTIVITY'' = Inr insight"
    and "ren (posterArgs fmtDate fs) = Inr poster"
  shows "handleFinalSave gen ren fmtDate uid s
           = (setTrips (\<lambda>prev. newTrip uid (isPrivate s) fs poster insight # prev) s)
               \<lparr>activeTrip := Some (newTrip uid (isPrivate s) fs poster insight),
                finishScreen := None, isSaving := False\<rparr>"
  using assms by (simp add: handleFinalSave_def Let_def setTrips_def saveTrips_def)

lemma setTrips_prepend:
  "trips (setTrips (\<lambda>prev. t # prev) s) = t # trips s"
  "storedTrips (setTrips (\<lambda>prev. t # prev) s) = Some (take 50 (t # trips s))"
  by (simp_all add: setTrips_def saveTrips_def)

text \<open>
  C4. In a reviewing state, when the poster renderer fails, the commit leaves the list of
  trips, the persisted archive and the displayed trip exactly as they were: no trip is
  created or inserted, whatever the insight generator did.
\<close>

theorem failing_poster_leaves_archive:
  assumes "finishScreen s = Some fs" and "ren (posterArgs fmtDate fs) = Inl e"
  shows "trips (handleFinalSave gen ren fmtDate uid s) = trips s
       \<and> storedTrips (handleFinalSave gen ren fmtDate uid s) = storedTrips s
       \<and> activeTrip (handleFinalSave gen ren fmtDate uid s) = activeTrip s"
  using assms
  by (simp add: handleFinalSave_poster_fails[where s = s and fs = fs and ren = ren and e = e])

theorem failing_poster_leaves_archive_witness:
  "finishScreen reviewing = Some walkSummary
   \<and> failingPoster (posterArgs longDate walkSummary) = Inl (Failure ''canvas unavailable'')
   \<and> trips (handleFinalSave absentInsight failingPoster longDate ''TR-1'' reviewing) = []
   \<and> storedTrips (handleFinalSave absentInsight failingPoster longDate ''TR-1'' reviewing) = Some []
   \<and> activeTrip (handleFinalSave absentInsight failingPoster longDate ''TR-1'' reviewing) = None"
proof -
  have f: "finishScreen reviewing = Some walkSummary" by (simp add: reviewing_eq)
  have p: "failingPoster (posterArgs longDate walkSummary) = Inl (Failure ''canvas unavailable'')"
    by (simp add: failingPoster_def)
  have r: "trips reviewing = []" "storedTrips reviewing = Some []" "activeTrip reviewing = None"
    by (simp_all add: reviewing_eq mounted_def)
  from failing_poster_leaves_archive[where s = reviewing and fs = walkSummary
      and ren = failingPoster and fmtDate = longDate and gen = absentInsight and uid = "''TR-1''"] f p r
  show ?thesis by simp
qed

text \<open>
  An insight generator that absorbs its own failure returns no text. The commit then goes
  on: with a poster that renders, a trip is created and prepended with the insight
  field absent, and no alert is shown.
\<close>

lemma absorbed_insight_failure_commits:
  assumes "finishScreen s = Some fs"
    and "gen (fs_dist fs) (fs_time fs) ''ACTIVITY'' = Inr None"
    and "ren (posterArgs fmtDate fs) = Inr poster"
  shows "trips (handleFinalSave gen ren fmtDate uid s)
           = newTrip uid (isPrivate s) fs poster None # trips s"
    and "trip_aiInsight (hd (trips (handleFinalSave gen ren fmtDate uid s))) = None"
    and "alerts (handleFinalSave gen ren fmtDate uid s) = alerts s"
    and "finishScreen (handleFinalSave gen ren fmtDate uid s) = None"
proof -
  have ok: "handleFinalSave gen ren fmtDate uid s
           = (setTrips (\<lambda>prev. newTrip uid (isPrivate s) fs poster None # prev) s)
               \<lparr>activeTrip := Some (newTrip uid (isPrivate s) fs poster None),
                finishScreen := None, isSaving := False\<rparr>"
    using assms by (rule handleFinalSave_succeeds)
  show "trips (handleFinalSave gen ren fmtDate uid s)
           = newTrip uid (isPrivate s) fs poster None # trips s"
    by (simp add: ok setTrips_prepend)
  then show "trip_aiInsight (hd (trips (handleFinalSave gen ren fmtDate uid s))) = None"
    by (simp add: newTrip_def)
  show "alerts (handleFinalSave gen ren fmtDate uid s) = alerts s"
    by (simp add: ok setTrips_def saveTrips_def)
  show "finishScreen (handleFinalSave gen ren fmtDate uid s) = None"
    by (simp add: ok)
qed

text \<open>
  C5. The commit is to go on when the insight generator fails, with the insight field
  absent. \<open>handleFinalSave\<close> awaits the generator inside the \<open>try\<close> block that also
  holds the poster call, and handles its rejection nowhere. In the reviewing state of
  the example, with an insight generator whose promise rejects and a poster renderer
  that renders, the handler reaches the \<open>catch\<close> block: no trip is created, the list
  of trips and the persisted archive stay empty, no trip is displayed, the review form
  stays open, and the alert shown is the one that names the poster.
\<close>

theorem insight_rejection_aborts_commit:
  "finishScreen reviewing = Some walkSummary
   \<and> failingInsight (fs_dist walkSummary) (fs_time walkSummary) ''ACTIVITY''
        = Inl (Failure ''insight unavailable'')
   \<and> plainPoster (posterArgs longDate walkSummary) = Inr ''data:image/png;base64,AAAA''
   \<and> trips (handleFinalSave failingInsight plainPoster longDate ''TR-1'' reviewing) = []
   \<and> storedTrips (handleFinalSave failingInsight plainPoster longDate ''TR-1'' reviewing) = Some []
   \<and> activeTrip (handleFinalSave failingInsight plainPoster longDate ''TR-1'' reviewing) = None
   \<and> finishScreen (handleFinalSave failingInsight plainPoster longDate ''TR-1'' reviewing)
        = Some walkSummary
   \<and> alerts (handleFinalSave failingInsight plainPoster longDate ''TR-1'' reviewing) = [failureAlert]"
proof -
  have f: "finishScreen reviewing = Some walkSummary" by (simp add: reviewing_eq)
  have i: "failingInsight (fs_dist walkSummary) (fs_time walkSummary) ''ACTIVITY''
        = Inl (Failure ''insight unavailable'')" by (simp add: failingInsight_def)
  have r: "trips reviewing = []" "storedTrips reviewing = Some []" "activeTrip reviewing = None"
    "alerts reviewing = []"
    by (simp_all add: reviewing_eq mounted_def)
  have "handleFinalSave failingInsight plainPoster longDate ''TR-1'' reviewing
          = reviewing\<lparr>alerts := alerts reviewing @ [failureAlert], isSaving := False\<rparr>"
    using f i by (rule handleFinalSave_insight_fails)
  then show ?thesis using f i r by (simp add: plainPoster_def)
qed

section \<open>Failed commits and the archive\<close>

lemma archiveAll_trips: "trips (archiveAll news s) = rev news @ trips s"
  by (induction news arbitrary: s) (simp_all add: setTrips_prepend)

lemma archiveAll_stored:
  "news \<noteq> [] \<Longrightarrow> storedTrips (archiveAll news s) = Some (take 50 (rev news @ trips s))"
proof (induction news arbitrary: s)
  case Nil
  then show ?case by simp
next
  case (Cons t news)
  show ?case
  proof (cases "news = []")
    case True
    then show ?thesis by (simp add: setTrips_prepend)
  next
    case False
    from Cons.IH[OF False, of "setTrips (\<lambda>prev. t # prev) s"]
    show ?thesis by (simp add: setTrips_prepend)
  qed
qed

lemma take_fifty_prepend:
  "50 \<le> length xs \<Longrightarrow> take 50 (t # xs) = t # butlast (take 50 xs)"
  by (simp add: butlast_take)




text \<open>
  C7. A successful commit puts the new trip at the front of the list of trips, and the
  archive persisted after it is the first 50 entries of that list: at most 50, the new
  trip first. When the archive already held 50 trips, it now holds the new trip followed
  by the old entries without the last one. After any run of commits the persisted archive
  is the first 50 entries of the trips, newest first.
\<close>

theorem archive_keeps_newest_fifty:
  assumes "finishScreen s = Some fs"
    and "gen (fs_dist fs) (fs_time fs) ''ACTIVITY'' = Inr insight"
    and "ren (posterArgs fmtDate fs) = Inr poster"
  shows "trips (handleFinalSave gen ren fmtDate uid s)
           = newTrip uid (isPrivate s) fs poster insight # trips s
       \<and> storedTrips (handleFinalSave gen ren fmtDate uid s)
           = Some (take 50 (newTrip uid (isPrivate s) fs poster insight # trips s))
       \<and> length (take 50 (newTrip uid (isPrivate s) fs poster insight # trips s)) \<le> 50
       \<and> (storedTrips s = Some old \<longrightarrow> old = take 50 (trips s) \<longrightarrow> length old = 50 \<longrightarrow>
            storedTrips (handleFinalSave gen ren fmtDate uid s)
              = Some (newTrip uid (isPrivate s) fs poster insight # butlast old))
       \<and> (news \<noteq> [] \<longrightarrow>
            storedTrips (archiveAll news s0) = Some (take 50 (rev news @ trips s0))
            \<and> length (take 50 (rev news @ trips s0)) \<le> 50)"
proof -
  let ?t = "newTrip uid (isPrivate s) fs poster insight"
  have ok: "handleFinalSave gen ren fmtDate uid s
           = (setTrips (\<lambda>prev. ?t # prev) s)
               \<lparr>activeTrip := Some ?t, finishScreen := None, isSaving := False\<rparr>"
    using assms by (rule handleFinalSave_succeeds)
  have 1: "trips (handleFinalSave gen ren fmtDate uid s) = ?t # trips s"
    by (simp add: ok setTrips_prepend)
  have 2: "storedTrips (handleFinalSave gen ren fmtDate uid s) = Some (take 50 (?t # trips s))"
    by (simp add: ok setTrips_prepend)
  have 3: "length (take 50 (?t # trips s)) \<le> 50" by simp
  have 4: "storedTrips (handleFinalSave gen ren fmtDate uid s) = Some (?t # butlast old)"
    if "old = take 50 (trips s)" "length old = 50"
  proof -
    from that have "50 \<le> length (trips s)" by simp
    then have "take 50 (?t # trips s) = ?t # butlast (take 50 (trips s))"
      by (rule take_fifty_prepend)
    with 2 that show ?thesis by simp
  qed
  have 5: "storedTrips (archiveAll news s0) = Some (take 50 (rev news @ trips s0))
            \<and> length (take 50 (rev news @ trips s0)) \<le> 50" if "news \<noteq> []"
    using that by (simp add: archiveAll_stored)
  from 1 2 3 4 5 show ?thesis by blast
qed

theorem archive_keeps_newest_fifty_witness:
  "finishScreen fullArchive = Some walkSummary
   \<and> absentInsight (fs_dist walkSummary) (fs_time walkSummary) ''ACTIVITY'' = Inr None
   \<and> plainPoster (posterArgs longDate walkSummary) = Inr ''data:image/png;base64,AAAA''
   \<and> storedTrips fullArchive = Some (replicate 50 oldTrip)
   \<and> length (trips (handleFinalSave absentInsight plainPoster longDate ''TR-51'' fullArchive)) = 51
   \<and> storedTrips (handleFinalSave absentInsight plainPoster longDate ''TR-51'' fullArchive)
        = Some (newTrip ''TR-51'' False walkSummary ''data:image/png;base64,AAAA'' None
                # replicate 49 oldTrip)
   \<and> storedTrips (archiveAll [oldTrip] mounted) = Some [oldTrip]"
proof -
  have f: "finishScreen fullArchive = Some walkSummary" by (simp add: fullArchive_def reviewing_eq)
  have a: "absentInsight (fs_dist walkSummary) (fs_time walkSummary) ''ACTIVITY'' = Inr None"
    by (simp add: absentInsight_def)
  have p: "plainPoster (posterArgs longDate walkSummary) = Inr ''data:image/png;base64,AAAA''"
    by (simp add: plainPoster_def)
  have r: "trips fullArchive = replicate 50 oldTrip"
    "storedTrips fullArchive = Some (replicate 50 oldTrip)" "isPrivate fullArchive = False"
    by (simp_all add: fullArchive_def reviewing_eq mounted_def)
  have m: "trips mounted = []" by (simp add: mounted_def)
  have b: "butlast (replicate 50 oldTrip) = replicate 49 oldTrip" by (simp add: butlast_conv_take)
  from archive_keeps_newest_fifty[where s = fullArchive and fs = walkSummary
      and gen = absentInsight and insight = None and ren = plainPoster and fmtDate = longDate
      and poster = "''data:image/png;base64,AAAA''" and uid = "''TR-51''"
      and old = "replicate 50 oldTrip" and news = "[oldTrip]" and ?s0.0 = mounted] f a p r m b
  show ?thesis by simp
qed

section \<open>Drafts\<close>

lemma pathLength_append:
  "xs \<noteq> [] \<Longrightarrow> pathLength hav (xs @ ys) = pathLength hav xs + pathLength hav (last xs # ys)"
  by (induction hav xs rule: pathLength.induct) simp_all

lemma startTracking_live:
  "liveSession fmt (startTracking True fmt now None s0)"
  "liveSession fmt (startTracking True fmt now (Some d) s0)"
  by (simp_all add: liveSession_def startTracking_def anchored_def lastOrNull_def
      split: option.splits)

lemma addPoint_live: "liveSession fmt s \<Longrightarrow> liveSession fmt (addPoint hav p s)"
proof -
  assume l: "liveSession fmt s"
  then have "anchored (addPoint hav p s)" by (simp add: liveSession_def addPoint_anchored)
  moreover have "isTracking (addPoint hav p s) = isTracking s"
    "startedAt (addPoint hav p s) = startedAt s"
    "startTimeLabel (addPoint hav p s) = startTimeLabel s"
    by (cases p s rule: addPoint_cases[where hav = hav]; simp)+
  ultimately show ?thesis using l by (simp add: liveSession_def split: option.splits)
qed

lemma resume_fields:
  assumes "storedDraft s1 = Some d"
  shows "pointsRef (handleResume True fmt now s1) = draft_points d"
    and "lastPointRef (handleResume True fmt now s1) = lastOrNull (draft_points d)"
    and "distanceMeters (handleResume True fmt now s1) = draft_distanceMeters d"
    and "elapsedSec (handleResume True fmt now s1) = draft_elapsedSec d"
    and "startedAt (handleResume True fmt now s1) = Some (draft_startedAt d)"
    and "isPrivate (handleResume True fmt now s1) = draft_isPrivate d"
    and "isTracking (handleResume True fmt now s1)"
    and "startTimeLabel (handleResume True fmt now s1)
           = (case draft_startTime d of
                None \<Rightarrow> fmt (draft_startedAt d)
              | Some l \<Rightarrow> if l = [] then fmt (draft_startedAt d) else l)"
  using assms by (simp_all add: handleResume_def startTracking_def)

lemma snapshot_of_live:
  assumes "liveSession fmt s"
  obtains t0 where "startedAt s = Some t0"
    and "storedDraft (snapshotDraft now s) = Some
           \<lparr>draft_startedAt = t0, draft_startTime = Some (startTimeLabel s),
            draft_isPrivate = isPrivate s, draft_elapsedSec = elapsedSec s,
            draft_distanceMeters = distanceMeters s, draft_points = pointsRef s\<rparr>"
  using assms by (auto simp: liveSession_def snapshotDraft_def split: option.splits)

text \<open>
  C8. Resuming a stored draft (on a device with a location service, as the session that
  wrote the draft had) makes the draft's points, distance, elapsed seconds, start instant
  and privacy flag the live session, tracking, with the last point of the draft as the
  anchor, or no anchor when the draft has no point. Samples fed afterwards append the
  accepted ones to the draft's points, and the distance is the draft's distance plus the
  length of the path from the anchor through the newly accepted points: nothing of the
  restored segment is added again. When the draft is the snapshot of a tracking session,
  the resumed session equals the snapshotted one.
\<close>

theorem resume_restores_snapshot:
  assumes "storedDraft s1 = Some d" and "r = handleResume True fmt now s1"
  shows "pointsRef r = draft_points d
       \<and> distanceMeters r = draft_distanceMeters d
       \<and> elapsedSec r = draft_elapsedSec d
       \<and> startedAt r = Some (draft_startedAt d)
       \<and> isPrivate r = draft_isPrivate d
       \<and> lastPointRef r = lastOrNull (draft_points d)
       \<and> isTracking r
       \<and> pointsRef (feed hav ps r)
            = draft_points d @ spec_accepted hav (lastOrNull (draft_points d)) ps
       \<and> distanceMeters (feed hav ps r)
            = draft_distanceMeters d
              + pathLength hav (anchorPath (lastOrNull (draft_points d))
                                @ spec_accepted hav (lastOrNull (draft_points d)) ps)
       \<and> (liveSession fmt s \<longrightarrow> storedDraft (snapshotDraft t0 s) = Some d \<longrightarrow>
            session r = session s)"
proof -
  note f = resume_fields[OF assms(1), of fmt now, folded assms(2)]
  have anch: "anchored r" using f by (simp add: anchored_def)
  have pts: "pointsRef (feed hav ps r)
            = draft_points d @ spec_accepted hav (lastOrNull (draft_points d)) ps"
    using feed_points[of hav ps r] f by simp
  have "distanceMeters (feed hav ps r) - pathLength hav (pointsRef (feed hav ps r))
          = draft_distanceMeters d - pathLength hav (draft_points d)"
    using feed_excess[OF anch, of hav ps] f by simp
  then have dist: "distanceMeters (feed hav ps r)
            = draft_distanceMeters d
              + pathLength hav (anchorPath (lastOrNull (draft_points d))
                                @ spec_accepted hav (lastOrNull (draft_points d)) ps)"
    by (cases "draft_points d = []")
       (simp_all add: pts anchorPath_def lastOrNull_def pathLength_append)
  have rt: "session r = session s"
    if l: "liveSession fmt s" and snap: "storedDraft (snapshotDraft t0 s) = Some d"
  proof -
    from l obtain st where st: "startedAt s = Some st"
      and sd: "storedDraft (snapshotDraft t0 s) = Some
           \<lparr>draft_startedAt = st, draft_startTime = Some (startTimeLabel s),
            draft_isPrivate = isPrivate s, draft_elapsedSec = elapsedSec s,
            draft_distanceMeters = distanceMeters s, draft_points = pointsRef s\<rparr>"
      by (rule snapshot_of_live)
    from sd snap have d: "d = \<lparr>draft_startedAt = st, draft_startTime = Some (startTimeLabel s),
            draft_isPrivate = isPrivate s, draft_elapsedSec = elapsedSec s,
            draft_distanceMeters = distanceMeters s, draft_points = pointsRef s\<rparr>" by simp
    from l st have lab: "startTimeLabel s \<noteq> [] \<or> startTimeLabel s = fmt st"
      and an: "lastPointRef s = lastOrNull (pointsRef s)"
      by (simp_all add: liveSession_def anchored_def)
    from lab have "startTimeLabel r = startTimeLabel s" using f(8) d by auto
    with f d st an show ?thesis by (simp add: session_def)
  qed
  from f pts dist rt show ?thesis by blast
qed

theorem resume_restores_snapshot_witness:
  "storedDraft relaunched = Some walkDraft
   \<and> liveSession clock walking
   \<and> storedDraft (snapshotDraft 5000 walking) = Some walkDraft
   \<and> session (handleResume True clock 60000 relaunched) = session walking
   \<and> lastPointRef (handleResume True clock 60000 relaunched) = Some sampleB
   \<and> pointsRef (feed gridMeters [sampleC, sampleD] (handleResume True clock 60000 relaunched))
        = [sampleA, sampleB, sampleD]
   \<and> distanceMeters (feed gridMeters [sampleC, sampleD] (handleResume True clock 60000 relaunched))
        = 111 / 10 + 222 / 10"
proof -
  have sn: "storedDraft (snapshotDraft 5000 walking) = Some walkDraft"
    by (simp add: snapshotDraft_def walking_eq walkDraft_def mounted_def)
  then have sd: "storedDraft relaunched = Some walkDraft" by (simp add: relaunched_def)
  have lv: "liveSession clock walking"
    by (simp add: liveSession_def anchored_def lastOrNull_def walking_eq mounted_def)
  have acc: "spec_accepted gridMeters (Some sampleB) [sampleC, sampleD] = [sampleD]"
    by (simp add: spec_weak_def gridMeters_def sample_defs)
  have pl: "pathLength gridMeters [sampleB, sampleD] = 222 / 10"
    by (simp add: gridMeters_def sample_defs)
  from resume_restores_snapshot[where ?s1.0 = relaunched and d = walkDraft
      and r = "handleResume True clock 60000 relaunched" and fmt = clock and now = 60000
      and hav = gridMeters and ps = "[sampleC, sampleD]" and s = walking and ?t0.0 = 5000]
    sd lv sn acc pl
  show ?thesis by (simp add: walkDraft_def lastOrNull_def anchorPath_def)
qed

section \<open>Finishing a session\<close>

lemma handleFinish_declined:
  "length (pointsRef s) < 2 \<Longrightarrow> \<not> confirmed \<Longrightarrow> handleFinish geo fmt confirmed now s = (None, s)"
  by (simp add: handleFinish_def)

lemma handleFinish_private:
  assumes "isPrivate s" and "2 \<le> length (pointsRef s) \<or> confirmed"
  shows "handleFinish geo fmt confirmed now s =
     (None, (stopTracking (s\<lparr>isSaving := True\<rparr>))
        \<lparr>isSaving := False,
         finishScreen := Some
           \<lparr>fs_show = True, fs_startLabel = ''Start'', fs_endLabel = ''End'',
            fs_points = pointsRef s, fs_dist = distanceMeters s, fs_time = elapsedSec s,
            fs_start = (case startedAt s of Some d \<Rightarrow> d | None \<Rightarrow> now),
            fs_startTimeStr = startTimeLabel s, fs_endTimeStr = fmt now\<rparr>\<rparr>)"
  using assms by (auto simp: handleFinish_def Let_def)

lemma handleFinish_public_empty:
  assumes "\<not> isPrivate s" and "pointsRef s = []" and "confirmed"
  shows "handleFinish geo fmt confirmed now s = (Some TypeError, stopTracking (s\<lparr>isSaving := True\<rparr>))"
  using assms by (simp add: handleFinish_def Let_def)

lemma handleFinish_public_nonempty:
  assumes "\<not> isPrivate s" and "pointsRef s \<noteq> []"
  shows "fst (handleFinish geo fmt confirmed now s) = None"
  using assms by (simp add: handleFinish_def Let_def split: list.splits)

text \<open>
  C9. Finishing a private session sends nothing to the geocoder and gives the same
  outcome with any two geocoders. When the finish goes ahead (two points or more, or the
  user confirms), the review form opens with the labels \<open>Start\<close> and \<open>End\<close>; when the
  user declines, nothing changes.
\<close>

theorem private_finish_skips_geocoding:
  assumes "isPrivate s"
  shows "handleFinish geo fmt confirmed now s = handleFinish geo' fmt confirmed now s
       \<and> fst (handleFinish geo fmt confirmed now s) = None
       \<and> geocodeCalls (snd (handleFinish geo fmt confirmed now s)) = geocodeCalls s
       \<and> (2 \<le> length (pointsRef s) \<or> confirmed \<longrightarrow>
            (\<exists>fs. finishScreen (snd (handleFinish geo fmt confirmed now s)) = Some fs
                  \<and> fs_startLabel fs = ''Start'' \<and> fs_endLabel fs = ''End''))
       \<and> (length (pointsRef s) < 2 \<and> \<not> confirmed \<longrightarrow>
            snd (handleFinish geo fmt confirmed now s) = s)"
proof (cases "2 \<le> length (pointsRef s) \<or> confirmed")
  case True
  with assms show ?thesis
    by (auto simp: handleFinish_private[where geo = geo] handleFinish_private[where geo = geo']
        stopTracking_def)
next
  case False
  then have d: "length (pointsRef s) < 2" "\<not> confirmed" by auto
  from d show ?thesis by (simp add: handleFinish_declined)
qed

theorem private_finish_skips_geocoding_witness:
  "isPrivate privateWalk
   \<and> handleFinish namedGeocoder clock False 900000 privateWalk
       = handleFinish silentGeocoder clock False 900000 privateWalk
   \<and> geocodeCalls (snd (handleFinish namedGeocoder clock False 900000 privateWalk)) = []
   \<and> (\<exists>fs. finishScreen (snd (handleFinish namedGeocoder clock False 900000 privateWalk)) = Some fs
           \<and> fs_startLabel fs = ''Start'' \<and> fs_endLabel fs = ''End'')"
proof -
  have p: "isPrivate privateWalk" by (simp add: privateWalk_def)
  have n: "2 \<le> length (pointsRef privateWalk)" "geocodeCalls privateWalk = []"
    by (simp_all add: privateWalk_def walking_eq mounted_def)
  note t = private_finish_skips_geocoding[where s = privateWalk and geo = namedGeocoder
      and geo' = silentGeocoder and fmt = clock and confirmed = False and now = 900000, OF p]
  have e: "handleFinish namedGeocoder clock False 900000 privateWalk
       = handleFinish silentGeocoder clock False 900000 privateWalk"
    using t by blast
  have "geocodeCalls (snd (handleFinish namedGeocoder clock False 900000 privateWalk))
          = geocodeCalls privateWalk"
    using t by blast
  with n(2)
  have g: "geocodeCalls (snd (handleFinish namedGeocoder clock False 900000 privateWalk)) = []"
    by simp
  have l: "\<exists>fs. finishScreen (snd (handleFinish namedGeocoder clock False 900000 privateWalk)) = Some fs
           \<and> fs_startLabel fs = ''Start'' \<and> fs_endLabel fs = ''End''"
    using t n(1) by blast
  from p e g l show ?thesis by blast
qed

text \<open>
  C10. Finishing a public session reads the first and the last stored point with no
  check that there is one. With no stored point and the confirmation given, the handler
  fails with a \<open>TypeError\<close> before any lookup is sent: the review form does not open and
  the saving flag stays set. With at least one stored point the handler does not fail;
  without the confirmation an empty session is left as it was.
\<close>

theorem public_finish_needs_a_point:
  assumes "\<not> isPrivate s"
  shows "(pointsRef s = [] \<longrightarrow> confirmed \<longrightarrow>
            fst (handleFinish geo fmt confirmed now s) = Some TypeError
            \<and> finishScreen (snd (handleFinish geo fmt confirmed now s)) = finishScreen s
            \<and> geocodeCalls (snd (handleFinish geo fmt confirmed now s)) = geocodeCalls s
            \<and> isSaving (snd (handleFinish geo fmt confirmed now s)))
       \<and> (pointsRef s \<noteq> [] \<longrightarrow> fst (handleFinish geo fmt confirmed now s) = None)
       \<and> (pointsRef s = [] \<longrightarrow> \<not> confirmed \<longrightarrow> handleFinish geo fmt confirmed now s = (None, s))"
proof (intro conjI impI)
  assume e: "pointsRef s = []" and c: "confirmed"
  have r: "handleFinish geo fmt confirmed now s
             = (Some TypeError, stopTracking (s\<lparr>isSaving := True\<rparr>))"
    using assms e c by (rule handleFinish_public_empty)
  show "fst (handleFinish geo fmt confirmed now s) = Some TypeError" by (simp add: r)
  show "finishScreen (snd (handleFinish geo fmt confirmed now s)) = finishScreen s"
    by (simp add: r stopTracking_def)
  show "geocodeCalls (snd (handleFinish geo fmt confirmed now s)) = geocodeCalls s"
    by (simp add: r stopTracking_def)
  show "isSaving (snd (handleFinish geo fmt confirmed now s))"
    by (simp add: r stopTracking_def)
next
  assume "pointsRef s \<noteq> []"
  with assms show "fst (handleFinish geo fmt confirmed now s) = None"
    by (rule handleFinish_public_nonempty)
next
  assume "pointsRef s = []" and "\<not> confirmed"
  then show "handleFinish geo fmt confirmed now s = (None, s)"
    by (simp add: handleFinish_declined)
qed

theorem public_finish_needs_a_point_witness:
  "\<not> isPrivate standing \<and> pointsRef standing = []
   \<and> fst (handleFinish namedGeocoder clock True 900000 standing) = Some TypeError
   \<and> finishScreen (snd (handleFinish namedGeocoder clock True 900000 standing)) = None
   \<and> isSaving (snd (handleFinish namedGeocoder clock True 900000 standing))
   \<and> \<not> isPrivate walking \<and> pointsRef walking = [sampleA, sampleB]
   \<and> fst (handleFinish namedGeocoder clock True 900000 walking) = None"
proof -
  have s: "\<not> isPrivate standing" "pointsRef standing = []" "finishScreen standing = None"
    by (simp_all add: standing_def startTracking_def mounted_def)
  have w: "\<not> isPrivate walking" "pointsRef walking = [sampleA, sampleB]"
    by (simp_all add: walking_eq mounted_def)
  from public_finish_needs_a_point[where s = standing and geo = namedGeocoder and fmt = clock
      and confirmed = True and now = 900000] s
  have 1: "fst (handleFinish namedGeocoder clock True 900000 standing) = Some TypeError"
    "finishScreen (snd (handleFinish namedGeocoder clock True 900000 standing)) = None"
    "isSaving (snd (handleFinish namedGeocoder clock True 900000 standing))"
    by simp_all
  from public_finish_needs_a_point[where s = walking and geo = namedGeocoder and fmt = clock
      and confirmed = True and now = 900000] w
  have 2: "fst (handleFinish namedGeocoder clock True 900000 walking) = None" by simp
  from s w 1 2 show ?thesis by simp
qed

end
